theory Spec2Isabelle
  imports Complex_Main "HOL-Library.Sublist"
begin

section \<open>JavaScript values and strings\<close>

text \<open>
  The worker (\<^verbatim>\<open>src/index.js\<close>) receives a JSON-RPC request and reads a handful of
  properties from it. The leaves it reads (\<^verbatim>\<open>method\<close>, \<^verbatim>\<open>id\<close>, \<^verbatim>\<open>params.name\<close> and the
  tool arguments) are modelled as primitive JavaScript values; \<open>JUndefined\<close> is what reading
  an absent property yields. Numbers are the integer-valued ones (below \<open>10^21\<close> in
  magnitude, where JavaScript prints them in plain decimal); array and object values in a
  leaf position are outside the model.

  Strings are \<^typ>\<open>string\<close>: a character is a byte, and the non-ASCII text of the source
  (the emoji and the bullet of the messages) is written as its UTF-8 bytes.
\<close>

datatype jsval = JUndefined | JNull | JBool bool | JNum int | JStr string

text \<open>\<^verbatim>\<open>!x\<close> is \<open>\<not> truthy x\<close>.\<close>

fun truthy :: "jsval \<Rightarrow> bool" where
  "truthy JUndefined = False"
| "truthy JNull = False"
| "truthy (JBool b) = b"
| "truthy (JNum n) = (n \<noteq> 0)"
| "truthy (JStr s) = (s \<noteq> [])"

text \<open>\<^verbatim>\<open>a || b\<close>\<close>

definition js_or :: "jsval \<Rightarrow> jsval \<Rightarrow> jsval" where
  "js_or a b = (if truthy a then a else b)"

definition digit :: "nat \<Rightarrow> char" where
  "digit d = ''0123456789'' ! d"

function nat_to_string :: "nat \<Rightarrow> string" where
  "nat_to_string n =
     (if n < 10 then [digit n] else nat_to_string (n div 10) @ [digit (n mod 10)])"
  by pat_completeness auto
termination
  by (relation "measure id") auto

declare nat_to_string.simps [simp del]

text \<open>The string a template literal \<^verbatim>\<open>`${x}`\<close> inserts for \<open>x\<close>.\<close>

fun toString :: "jsval \<Rightarrow> string" where
  "toString JUndefined = ''undefined''"
| "toString JNull = ''null''"
| "toString (JBool b) = (if b then ''true'' else ''false'')"
| "toString (JNum n) =
     (if n < 0 then ''-'' @ nat_to_string (nat (- n)) else nat_to_string (nat n))"
| "toString (JStr s) = s"

text \<open>
  \<^verbatim>\<open>String.prototype.toLowerCase\<close>, on the ASCII letters; every other byte is left as it
  is (the Unicode case tables are not part of the model, and no theorem below depends on
  what the mapping does to a particular character).
\<close>

definition toLowerCase_char :: "char \<Rightarrow> char" where
  "toLowerCase_char c =
     (case map_of (zip ''ABCDEFGHIJKLMNOPQRSTUVWXYZ'' ''abcdefghijklmnopqrstuvwxyz'') c of
        None \<Rightarrow> c
      | Some l \<Rightarrow> l)"

definition toLowerCase :: "string \<Rightarrow> string" where
  "toLowerCase s = map toLowerCase_char s"

text \<open>\<^verbatim>\<open>a.includes(b)\<close>: \<open>b\<close> occurs in \<open>a\<close> as a contiguous substring.\<close>

definition includes_str :: "string \<Rightarrow> string \<Rightarrow> bool" where
  "includes_str a b = sublist b a"

text \<open>
  \<^verbatim>\<open>String.prototype.trim\<close> removes white space and line terminators from both ends:
  U+0009 to U+000D, U+0020, U+00A0, U+1680, U+2000 to U+200A, U+2028, U+2029, U+202F,
  U+205F, U+3000 and U+FEFF, listed here as UTF-8 byte sequences.
\<close>

definition whitespace :: "string list" where
  "whitespace =
     [[CHR 0x09], [CHR 0x0A], [CHR 0x0B], [CHR 0x0C], [CHR 0x0D], [CHR 0x20],
      [CHR 0xC2, CHR 0xA0],
      [CHR 0xE1, CHR 0x9A, CHR 0x80],
      [CHR 0xE2, CHR 0x80, CHR 0x80], [CHR 0xE2, CHR 0x80, CHR 0x81],
      [CHR 0xE2, CHR 0x80, CHR 0x82], [CHR 0xE2, CHR 0x80, CHR 0x83],
      [CHR 0xE2, CHR 0x80, CHR 0x84], [CHR 0xE2, CHR 0x80, CHR 0x85],
      [CHR 0xE2, CHR 0x80, CHR 0x86], [CHR 0xE2, CHR 0x80, CHR 0x87],
      [CHR 0xE2, CHR 0x80, CHR 0x88], [CHR 0xE2, CHR 0x80, CHR 0x89],
      [CHR 0xE2, CHR 0x80, CHR 0x8A],
      [CHR 0xE2, CHR 0x80, CHR 0xA8], [CHR 0xE2, CHR 0x80, CHR 0xA9],
      [CHR 0xE2, CHR 0x80, CHR 0xAF],
      [CHR 0xE2, CHR 0x81, CHR 0x9F],
      [CHR 0xE3, CHR 0x80, CHR 0x80],
      [CHR 0xEF, CHR 0xBB, CHR 0xBF]]"

function strip :: "string list \<Rightarrow> string \<Rightarrow> string" where
  "strip ws s =
     (case find (\<lambda>w. w \<noteq> [] \<and> prefix w s) ws of
        None \<Rightarrow> s
      | Some w \<Rightarrow> strip ws (drop (length w) s))"
  by pat_completeness auto
termination
proof (relation "measure (\<lambda>(ws, s). length s)")
  show "wf (measure (\<lambda>(ws, s). length s))"
    by simp
next
  fix ws :: "string list" and s w :: string
  assume "find (\<lambda>w. w \<noteq> [] \<and> prefix w s) ws = Some w"
  then have "w \<noteq> []" and "prefix w s"
    by (auto simp: find_Some_iff)
  then have "s \<noteq> []" and "0 < length w"
    by auto
  then show "((ws, drop (length w) s), (ws, s)) \<in> measure (\<lambda>(ws, s). length s)"
    by simp
qed

declare strip.simps [simp del]

definition trimStart :: "string \<Rightarrow> string" where
  "trimStart s = strip whitespace s"

definition trimEnd :: "string \<Rightarrow> string" where
  "trimEnd s = rev (strip (map rev whitespace) (rev s))"

definition trim :: "string \<Rightarrow> string" where
  "trim s = trimEnd (trimStart s)"

text \<open>\<^verbatim>\<open>xs.join(sep)\<close>\<close>

fun join :: "string \<Rightarrow> string list \<Rightarrow> string" where
  "join sep [] = []"
| "join sep [x] = x"
| "join sep (x # y # ys) = x @ sep @ join sep (y # ys)"

section \<open>The collaborators: key-value namespace and completion API\<close>

text \<open>
  A thrown JavaScript \<^verbatim>\<open>Error\<close> is a value carrying its \<^verbatim>\<open>message\<close>; a function that may
  throw returns \<open>exn + 'a\<close>. The messages of the engine's own \<^verbatim>\<open>TypeError\<close>s are written
  as V8 prints them.
\<close>

datatype exn = Error (message: string)

text \<open>
  The request of the one outbound call, \<^verbatim>\<open>fetch('https://api.openai.com/v1/chat/completions', ...)\<close>:
  the bearer credential, and the fields of the JSON body (one message, of role \<^verbatim>\<open>user\<close>).
\<close>

record completion_request =
  url :: string
  authorization :: string
  model :: string
  content :: string
  max_tokens :: nat
  temperature :: rat

text \<open>
  What the code reads from the answer: \<^verbatim>\<open>response.status\<close> (\<^verbatim>\<open>response.ok\<close> is a status
  from 200 to 299) and \<^verbatim>\<open>data.choices[0].message.content\<close> of the parsed body, where
  \<open>first_choice\<close> is \<open>Inl\<close> of the error raised when the body does not parse or has
  another shape.
\<close>

record completion_response =
  status :: nat
  first_choice :: "exn + string"

definition ok :: "completion_response \<Rightarrow> bool" where
  "ok response = (200 \<le> status response \<and> status response \<le> 299)"

text \<open>
  The bindings of the worker. The key-value namespace \<^verbatim>\<open>env.MEMORY_KV\<close> and the global
  \<^verbatim>\<open>fetch\<close> are external: each is a parameter, a function of the state \<open>'w\<close> of the
  outside world that returns a value or throws, and the next state of that world.
  \<open>kv_list\<close> gives the \<^verbatim>\<open>name\<close>s of \<^verbatim>\<open>list().keys\<close>, \<open>kv_get\<close> a value or \<^verbatim>\<open>null\<close>.
\<close>

record 'w kv =
  kv_list :: "'w \<Rightarrow> (exn + string list) \<times> 'w"
  kv_get :: "string \<Rightarrow> 'w \<Rightarrow> (exn + string option) \<times> 'w"
  kv_put :: "jsval \<Rightarrow> jsval \<Rightarrow> 'w \<Rightarrow> (exn + unit) \<times> 'w"

record 'w env =
  OPENAI_API_KEY :: "string option"
  OPENAI_MODEL :: "string option"
  MEMORY_KV :: "'w kv"
  http_fetch :: "completion_request \<Rightarrow> 'w \<Rightarrow> (exn + completion_response) \<times> 'w"

text \<open>
  The state threaded through a request: the outside world, and the log of the calls the
  worker has made to its collaborators, oldest first.
\<close>

datatype call = KV_list | KV_get string | KV_put jsval jsval | Fetch completion_request

record 'w state =
  world :: 'w
  calls :: "call list"

definition call_list :: "'w env \<Rightarrow> 'w state \<Rightarrow> (exn + string list) \<times> 'w state" where
  "call_list env s =
     (case kv_list (MEMORY_KV env) (world s) of
        (r, w) \<Rightarrow> (r, \<lparr>world = w, calls = calls s @ [KV_list]\<rparr>))"

definition call_get :: "'w env \<Rightarrow> string \<Rightarrow> 'w state \<Rightarrow> (exn + string option) \<times> 'w state" where
  "call_get env k s =
     (case kv_get (MEMORY_KV env) k (world s) of
        (r, w) \<Rightarrow> (r, \<lparr>world = w, calls = calls s @ [KV_get k]\<rparr>))"

definition call_put :: "'w env \<Rightarrow> jsval \<Rightarrow> jsval \<Rightarrow> 'w state \<Rightarrow> (exn + unit) \<times> 'w state" where
  "call_put env k v s =
     (case kv_put (MEMORY_KV env) k v (world s) of
        (r, w) \<Rightarrow> (r, \<lparr>world = w, calls = calls s @ [KV_put k v]\<rparr>))"

definition call_fetch ::
  "'w env \<Rightarrow> completion_request \<Rightarrow> 'w state \<Rightarrow> (exn + completion_response) \<times> 'w state" where
  "call_fetch env req s =
     (case http_fetch env req (world s) of
        (r, w) \<Rightarrow> (r, \<lparr>world = w, calls = calls s @ [Fetch req]\<rparr>))"

section \<open>Requests and responses\<close>

text \<open>
  The decoded JSON-RPC request. \<open>params = None\<close> and \<open>arguments = None\<close> are the absent
  properties that the destructuring defaults replace by \<^verbatim>\<open>{}\<close>; the arguments object is
  the function from a property name to its value. The fields \<open>rpc_method\<close> and \<open>req_id\<close>
  are the properties \<^verbatim>\<open>method\<close> and \<^verbatim>\<open>id\<close>. A body that is not an object, and \<^verbatim>\<open>params\<close>
  or \<^verbatim>\<open>arguments\<close> that are present without being objects, are outside the model.
\<close>

record call_params =
  name :: jsval
  arguments :: "(string \<Rightarrow> jsval) option"

record request =
  rpc_method :: jsval
  params :: "call_params option"
  req_id :: jsval

record tool =
  tool_name :: string
  description :: string
  properties :: "(string \<times> string) list"
  required :: "string list"

datatype content_block = Text string

datatype result =
  Capabilities string "string list"
| Tools "tool list"
| Content "content_block list"

text \<open>
  The two envelopes, both with \<^verbatim>\<open>jsonrpc: '2.0'\<close>: \<^verbatim>\<open>{result, id}\<close> and
  \<^verbatim>\<open>{error: {code, message}, id}\<close>.
\<close>

datatype response = Rpc_result result jsval | Rpc_error int string jsval

text \<open>The literals of the source that are not ASCII, and the two that Isabelle strings escape.\<close>

definition cross_mark :: string where "cross_mark = [CHR 0xE2, CHR 0x9D, CHR 0x8C]"
definition check_mark :: string where "check_mark = [CHR 0xE2, CHR 0x9C, CHR 0x85]"
definition question_mark :: string where "question_mark = [CHR 0xE2, CHR 0x9D, CHR 0x93]"
definition brain :: string where "brain = [CHR 0xF0, CHR 0x9F, CHR 0xA7, CHR 0xA0]"
definition memo :: string where "memo = [CHR 0xF0, CHR 0x9F, CHR 0x93, CHR 0x9D]"
definition clipboard :: string where "clipboard = [CHR 0xF0, CHR 0x9F, CHR 0x93, CHR 0x8B]"
definition bullet :: string where "bullet = [CHR 0xE2, CHR 0x80, CHR 0xA2]"
definition dq :: string where "dq = [CHR 0x22]"
definition nl :: string where "nl = [CHR 0x0A]"

definition tool_catalog :: "tool list" where
  "tool_catalog =
     [\<lparr>tool_name = ''ask_memory'',
       description = ''Ask intelligent questions about your stored memory using ChatGPT analysis'',
       properties = [(''question'', ''Question about your memory, projects, people, etc.'')],
       required = [''question'']\<rparr>,
      \<lparr>tool_name = ''store_memory'',
       description = ''Store new information in your memory'',
       properties = [(''key'', ''Key to store the information under''),
                     (''value'', ''Information to store'')],
       required = [''key'', ''value'']\<rparr>,
      \<lparr>tool_name = ''search_memory'',
       description = ''Search stored memories'',
       properties = [(''query'', ''Search term'')],
       required = [''query'']\<rparr>]"

section \<open>The three tools and the dispatcher\<close>

text \<open>
  The body of the \<^verbatim>\<open>for\<close> loop of \<^verbatim>\<open>searchMemories\<close>, over the remaining keys, with the
  \<^verbatim>\<open>results\<close> pushed so far. A throwing \<^verbatim>\<open>get\<close> leaves the loop. A query that is not a
  string has no \<^verbatim>\<open>toLowerCase\<close>: the call throws, but only once a truthy value has made
  the \<^verbatim>\<open>&&\<close> evaluate its right operand.
\<close>

fun search_loop ::
  "'w env \<Rightarrow> jsval \<Rightarrow> string list \<Rightarrow> string list \<Rightarrow> 'w state \<Rightarrow> (exn + string list) \<times> 'w state" where
  "search_loop env query [] results s = (Inr results, s)"
| "search_loop env query (key # keys) results s =
     (case call_get env key s of
        (Inl e, s') \<Rightarrow> (Inl e, s')
      | (Inr None, s') \<Rightarrow> search_loop env query keys results s'
      | (Inr (Some v), s') \<Rightarrow>
          if v = [] then search_loop env query keys results s'
          else
            (case query of
               JStr q \<Rightarrow>
                 if includes_str (toLowerCase key) (toLowerCase q)
                    \<or> includes_str (toLowerCase v) (toLowerCase q)
                 then search_loop env query keys (results @ [bullet @ '' '' @ key @ '': '' @ v]) s'
                 else search_loop env query keys results s'
             | _ \<Rightarrow> (Inl (Error ''query.toLowerCase is not a function''), s')))"

definition searchMemories :: "jsval \<Rightarrow> 'w env \<Rightarrow> 'w state \<Rightarrow> string \<times> 'w state" where
  "searchMemories query env s =
     (case call_list env s of
        (Inl e, s') \<Rightarrow> (''Search error: '' @ message e, s')
      | (Inr keys, s') \<Rightarrow>
          (case search_loop env query keys [] s' of
             (Inl e, s'') \<Rightarrow> (''Search error: '' @ message e, s'')
           | (Inr results, s'') \<Rightarrow>
               if length results = 0
               then (''No memories found matching '' @ dq @ toString query @ dq, s'')
               else (''Found '' @ nat_to_string (length results) @ '' memories:'' @ nl
                       @ join nl results, s'')))"

definition prompt :: "string \<Rightarrow> string \<Rightarrow> string" where
  "prompt question searchResults =
     nl @ ''You are a helpful memory assistant. The user asked: '' @ dq @ question @ dq @ nl
     @ nl
     @ ''Here's what I found in their stored memories:'' @ nl
     @ searchResults @ nl
     @ nl
     @ ''Provide a helpful, conversational response. If no relevant memories were found, suggest what kind of information would be useful to store about this topic.'' @ nl
     @ ''  ''"

definition ai_error :: "string \<Rightarrow> exn \<Rightarrow> string \<Rightarrow> string" where
  "ai_error question error searchResults =
     brain @ '' **Memory Query**: '' @ dq @ question @ dq @ nl @ nl
     @ cross_mark @ '' **AI Error**: '' @ message error @ nl @ nl
     @ clipboard @ '' **Found memories**: '' @ searchResults"

text \<open>
  The one request \<^verbatim>\<open>askMemoryWithAI\<close> sends: \<^verbatim>\<open>`Bearer ${env.OPENAI_API_KEY}`\<close>,
  \<^verbatim>\<open>env.OPENAI_MODEL || 'gpt-5'\<close>, the prompt as the content of the message, and the fixed
  sampling parameters.
\<close>

definition chat_request :: "'w env \<Rightarrow> string \<Rightarrow> completion_request" where
  "chat_request env p =
     \<lparr>url = ''https://api.openai.com/v1/chat/completions'',
      authorization = ''Bearer '' @ (case OPENAI_API_KEY env of None \<Rightarrow> ''undefined'' | Some k \<Rightarrow> k),
      model = (case OPENAI_MODEL env of
                 None \<Rightarrow> ''gpt-5''
               | Some m \<Rightarrow> if m = [] then ''gpt-5'' else m),
      content = p,
      max_tokens = 500,
      temperature = 7 / 10\<rparr>"

text \<open>
  \<^verbatim>\<open>askMemoryWithAI\<close>. A question that is not a string has no \<^verbatim>\<open>trim\<close>, and that call is
  outside the \<^verbatim>\<open>try\<close>: the function throws. Everything after the search is inside the
  \<^verbatim>\<open>try\<close>, whose \<^verbatim>\<open>catch\<close> formats the error.
\<close>

definition askMemoryWithAI :: "jsval \<Rightarrow> 'w env \<Rightarrow> 'w state \<Rightarrow> (exn + string) \<times> 'w state" where
  "askMemoryWithAI question env s =
     (case question of
        JStr q \<Rightarrow>
          if trim q = [] then (Inr (question_mark @ '' Please ask a question about your memory.''), s)
          else
            (case searchMemories question env s of
               (searchResults, s1) \<Rightarrow>
                 (case call_fetch env (chat_request env (prompt q searchResults)) s1 of
                    (Inl error, s2) \<Rightarrow> (Inr (ai_error q error searchResults), s2)
                  | (Inr response, s2) \<Rightarrow>
                      if \<not> ok response
                      then (Inr (ai_error q
                                   (Error (''OpenAI API error: '' @ nat_to_string (status response)))
                                   searchResults), s2)
                      else
                        (case first_choice response of
                           Inl error \<Rightarrow> (Inr (ai_error q error searchResults), s2)
                         | Inr text \<Rightarrow>
                             (Inr (brain @ '' **Memory Query**: '' @ dq @ q @ dq @ nl @ nl
                                   @ memo @ '' **Response**: '' @ trim text), s2))))
      | _ \<Rightarrow> (Inl (Error ''question.trim is not a function''), s))"

definition text_result :: "string \<Rightarrow> jsval \<Rightarrow> response" where
  "text_result text i = Rpc_result (Content [Text text]) i"

text \<open>
  \<^verbatim>\<open>handleMCP\<close>. The \<^verbatim>\<open>put\<close> of \<^verbatim>\<open>store_memory\<close> is awaited outside any \<^verbatim>\<open>try\<close>: when it
  throws, so does the dispatcher.
\<close>

definition handleMCP :: "request \<Rightarrow> 'w env \<Rightarrow> 'w state \<Rightarrow> (exn + response) \<times> 'w state" where
  "handleMCP body env s =
     (let id = req_id body in
      if rpc_method body = JStr ''initialize''
      then (Inr (Rpc_result (Capabilities ''0.1.0'' [''tools'', ''prompts'']) id), s)
      else if rpc_method body = JStr ''tools/list''
      then (Inr (Rpc_result (Tools tool_catalog) id), s)
      else if rpc_method body = JStr ''tools/call''
      then
        (let p = (case params body of None \<Rightarrow> \<lparr>name = JUndefined, arguments = None\<rparr> | Some p \<Rightarrow> p);
             name = name p;
             args = (case arguments p of None \<Rightarrow> (\<lambda>_. JUndefined) | Some a \<Rightarrow> a)
         in
         if name = JStr ''ask_memory''
         then
           (case askMemoryWithAI (js_or (args ''question'') (JStr [])) env s of
              (Inl e, s') \<Rightarrow> (Inl e, s')
            | (Inr response, s') \<Rightarrow> (Inr (text_result response id), s'))
         else if name = JStr ''store_memory''
         then
           (let key = args ''key''; value = args ''value'' in
            if \<not> truthy key \<or> \<not> truthy value
            then (Inr (text_result (cross_mark @ '' Both key and value are required'') id), s)
            else
              (case call_put env key value s of
                 (Inl e, s') \<Rightarrow> (Inl e, s')
               | (Inr _, s') \<Rightarrow>
                   (Inr (text_result (check_mark @ '' Stored memory: '' @ toString key) id), s')))
         else if name = JStr ''search_memory''
         then
           (case searchMemories (js_or (args ''query'') (JStr [])) env s of
              (results, s') \<Rightarrow> (Inr (text_result results id), s'))
         else (Inr (Rpc_error (- 32601) (''Unknown tool: '' @ toString name) id), s))
      else (Inr (Rpc_error (- 32601) (''Unknown method: '' @ toString (rpc_method body)) id), s))"



section \<open>An in-memory key-value namespace\<close>

text \<open>
  Modelled from the spec: the key-value store is a collaborator the worker consumes and
  does not implement; the specification gives its contract as \<^verbatim>\<open>list()\<close> (enumerable key
  names), \<^verbatim>\<open>get(key)\<close> (value or absent) and \<^verbatim>\<open>put(key, value)\<close> (overwrite or create),
  over string keys and values. A state of the namespace is the list of names it enumerates
  and the value it returns for each name; a listed name may have no value (a stale
  listing) and a value may be the empty string. \<^verbatim>\<open>put\<close> overwrites the value and lists a
  new key last; its arguments arrive as strings, other values being converted as a
  binding with string parameters converts them.
\<close>

record store =
  listing :: "string list"
  entries :: "string \<Rightarrow> string option"

definition memory_put :: "string \<Rightarrow> string \<Rightarrow> store \<Rightarrow> store" where
  "memory_put k v w =
     \<lparr>listing = (if k \<in> set (listing w) then listing w else listing w @ [k]),
      entries = (entries w)(k \<mapsto> v)\<rparr>"

definition memory_kv :: "store kv" where
  "memory_kv =
     \<lparr>kv_list = (\<lambda>w. (Inr (listing w), w)),
      kv_get = (\<lambda>k w. (Inr (entries w k), w)),
      kv_put = (\<lambda>k v w. (Inr (), memory_put (toString k) (toString v) w))\<rparr>"

text \<open>The entries of a store, in enumeration order: each listed key with the value it has.\<close>

definition stored_entries :: "store \<Rightarrow> (string \<times> string) list" where
  "stored_entries w =
     concat (map (\<lambda>k. case entries w k of None \<Rightarrow> [] | Some v \<Rightarrow> [(k, v)]) (listing w))"

section \<open>What a search returns, in the words of the specification\<close>

text \<open>
  The criterion of the specification: the lowercase query is a substring of the lowercase
  key or of the lowercase value.
\<close>

definition matches :: "string \<Rightarrow> string \<times> string \<Rightarrow> bool" where
  "matches q e =
     (sublist (toLowerCase q) (toLowerCase (fst e))
      \<or> sublist (toLowerCase q) (toLowerCase (snd e)))"


definition found_entries :: "string \<Rightarrow> store \<Rightarrow> (string \<times> string) list" where
  "found_entries q w = filter (\<lambda>e. snd e \<noteq> [] \<and> matches q e) (stored_entries w)"

text \<open>
  The text for a list of entries: the fixed sentence when there is none, else the count
  and one bullet line per entry.
\<close>

definition bullet_line :: "string \<times> string \<Rightarrow> string" where
  "bullet_line e = bullet @ '' '' @ fst e @ '': '' @ snd e"

definition listing_text :: "string \<Rightarrow> (string \<times> string) list \<Rightarrow> string" where
  "listing_text q es =
     (if es = [] then ''No memories found matching '' @ dq @ q @ dq
      else ''Found '' @ nat_to_string (length es) @ '' memories:'' @ nl
             @ join nl (map bullet_line es))"

text \<open>Requests as a client builds them, and the shape of an answer.\<close>

definition tools_call :: "jsval \<Rightarrow> (string \<Rightarrow> jsval) option \<Rightarrow> jsval \<Rightarrow> request" where
  "tools_call n a i =
     \<lparr>rpc_method = JStr ''tools/call'', params = Some \<lparr>name = n, arguments = a\<rparr>, req_id = i\<rparr>"

definition no_args :: "string \<Rightarrow> jsval" where
  "no_args = (\<lambda>_. JUndefined)"

definition store_memory :: "string \<Rightarrow> string \<Rightarrow> jsval \<Rightarrow> request" where
  "store_memory k v i =
     tools_call (JStr ''store_memory'') (Some (no_args(''key'' := JStr k, ''value'' := JStr v))) i"

definition search_memory :: "string \<Rightarrow> jsval \<Rightarrow> request" where
  "search_memory q i =
     tools_call (JStr ''search_memory'') (Some (no_args(''query'' := JStr q))) i"

definition ask_memory :: "string \<Rightarrow> jsval \<Rightarrow> request" where
  "ask_memory q i =
     tools_call (JStr ''ask_memory'') (Some (no_args(''question'' := JStr q))) i"

definition arg :: "(string \<Rightarrow> jsval) option \<Rightarrow> string \<Rightarrow> jsval" where
  "arg a x = (case a of None \<Rightarrow> JUndefined | Some f \<Rightarrow> f x)"


fun is_put :: "call \<Rightarrow> bool" where
  "is_put (KV_put k v) = True"
| "is_put _ = False"


text \<open>
  Concrete collaborators for the examples: an empty namespace, a completion API that
  cannot be reached, one that answers with status 500, and a namespace that is down.
\<close>

definition empty_store :: store where
  "empty_store = \<lparr>listing = [], entries = (\<lambda>_. None)\<rparr>"

definition initial :: "store \<Rightarrow> store state" where
  "initial w = \<lparr>world = w, calls = []\<rparr>"

definition offline :: "completion_request \<Rightarrow> store \<Rightarrow> (exn + completion_response) \<times> store" where
  "offline req w = (Inl (Error ''fetch failed''), w)"

definition failing_upstream :: "completion_request \<Rightarrow> store \<Rightarrow> (exn + completion_response) \<times> store" where
  "failing_upstream req w = (Inr \<lparr>status = 500, first_choice = Inl (Error ''Unexpected end of JSON input'')\<rparr>, w)"

definition example_env :: "store env" where
  "example_env =
     \<lparr>OPENAI_API_KEY = Some ''sk-test'', OPENAI_MODEL = None,
      MEMORY_KV = memory_kv, http_fetch = offline\<rparr>"

definition rejecting_env :: "store env" where
  "rejecting_env = example_env\<lparr>http_fetch := failing_upstream\<rparr>"



text \<open>A namespace that lists one key, \<^verbatim>\<open>a\<close>, whose value is the empty string.\<close>

definition blank_store :: store where
  "blank_store = \<lparr>listing = [''a''], entries = (\<lambda>_. None)(''a'' \<mapsto> [])\<rparr>"

text \<open>Serving requests one after the other, each on the state the one before left.\<close>

fun serve :: "'w env \<Rightarrow> request list \<Rightarrow> 'w state \<Rightarrow> 'w state" where
  "serve env [] s = s"
| "serve env (r # rs) s = serve env rs (snd (handleMCP r env s))"

text \<open>
  A namespace that lists three keys: \<^verbatim>\<open>a\<close> with the empty string as value, \<^verbatim>\<open>b\<close> with
  the value \<^verbatim>\<open>x\<close>, and \<^verbatim>\<open>c\<close> with no value.
\<close>

definition mixed_store :: store where
  "mixed_store =
     \<lparr>listing = [''a'', ''b'', ''c''], entries = (\<lambda>_. None)(''a'' \<mapsto> [], ''b'' \<mapsto> ''x'')\<rparr>"

section \<open>Strings\<close>

lemma strip_Nil: "strip ws [] = []"
proof -
  have "find (\<lambda>w. w \<noteq> [] \<and> prefix w []) ws = None"
    by (simp add: find_None_iff)
  then show ?thesis
    by (subst strip.simps) simp
qed

lemma trim_Nil: "trim [] = []"
  by (simp add: trim_def trimEnd_def trimStart_def strip_Nil)

lemma trim_nonempty: "trim q \<noteq> [] \<Longrightarrow> q \<noteq> []"
  using trim_Nil by auto

section \<open>The calls a request makes\<close>

lemma call_list_calls: "call_list env s = (r, s') \<Longrightarrow> calls s' = calls s @ [KV_list]"
  by (auto simp: call_list_def split: prod.splits)

lemma call_get_calls: "call_get env k s = (r, s') \<Longrightarrow> calls s' = calls s @ [KV_get k]"
  by (auto simp: call_get_def split: prod.splits)

lemma call_put_calls: "call_put env k v s = (r, s') \<Longrightarrow> calls s' = calls s @ [KV_put k v]"
  by (auto simp: call_put_def split: prod.splits)

lemma call_fetch_calls: "call_fetch env req s = (r, s') \<Longrightarrow> calls s' = calls s @ [Fetch req]"
  by (auto simp: call_fetch_def split: prod.splits)

lemma search_loop_calls:
  "\<exists>ks. calls (snd (search_loop env query keys results s)) = calls s @ map KV_get ks"
proof (induction keys arbitrary: results s)
  case Nil
  have "calls s = calls s @ map KV_get []"
    by simp
  then show ?case
    by (metis search_loop.simps(1) snd_conv)
next
  case (Cons k keys)
  obtain r s' where g: "call_get env k s = (r, s')"
    by (cases "call_get env k s")
  have c: "calls s' = calls s @ [KV_get k]"
    by (rule call_get_calls [OF g])
  have rec: "\<exists>ks. calls (snd (search_loop env query keys res s')) = calls s @ map KV_get ks" for res
  proof -
    obtain ks where "calls (snd (search_loop env query keys res s')) = calls s' @ map KV_get ks"
      using Cons.IH [of res s'] by blast
    then have "calls (snd (search_loop env query keys res s')) = calls s @ map KV_get (k # ks)"
      by (simp add: c)
    then show ?thesis
      by blast
  qed
  have stop: "\<exists>ks. calls s' = calls s @ map KV_get ks"
  proof -
    have "calls s' = calls s @ map KV_get [k]"
      by (simp add: c)
    then show ?thesis
      by blast
  qed
  show ?case
    using rec stop by (auto simp: g split: sum.splits option.splits jsval.splits)
qed

lemma searchMemories_calls:
  "\<exists>ks. calls (snd (searchMemories query env s)) = calls s @ KV_list # map KV_get ks"
proof -
  obtain r s' where l: "call_list env s = (r, s')"
    by (cases "call_list env s")
  have c: "calls s' = calls s @ [KV_list]"
    by (rule call_list_calls [OF l])
  show ?thesis
  proof (cases r)
    case (Inl e)
    have "calls s' = calls s @ KV_list # map KV_get []"
      by (simp add: c)
    then show ?thesis
      unfolding searchMemories_def l Inl by (auto simp del: map_is_Nil_conv)
  next
    case (Inr keys)
    obtain ks where "calls (snd (search_loop env query keys [] s')) = calls s' @ map KV_get ks"
      using search_loop_calls by blast
    then have "calls (snd (search_loop env query keys [] s')) = calls s @ KV_list # map KV_get ks"
      by (simp add: c)
    then show ?thesis
      unfolding searchMemories_def l Inr
      by (cases "search_loop env query keys [] s'") (auto split: sum.splits)
  qed
qed

lemma askMemoryWithAI_calls:
  "\<exists>new. calls (snd (askMemoryWithAI question env s)) = calls s @ new \<and> filter is_put new = []"
proof (cases "\<exists>q. question = JStr q \<and> trim q \<noteq> []")
  case False
  then have "snd (askMemoryWithAI question env s) = s"
    by (auto simp: askMemoryWithAI_def split: jsval.splits)
  then show ?thesis
    by simp
next
  case True
  then obtain q where q: "question = JStr q" "trim q \<noteq> []"
    by blast
  obtain found s1 where f: "searchMemories (JStr q) env s = (found, s1)"
    by (cases "searchMemories (JStr q) env s")
  obtain ks where c1: "calls s1 = calls s @ KV_list # map KV_get ks"
    using searchMemories_calls [of "JStr q" env s] f by auto
  obtain r s2 where h: "call_fetch env (chat_request env (prompt q found)) s1 = (r, s2)"
    by (cases "call_fetch env (chat_request env (prompt q found)) s1")
  have c2: "calls s2 = calls s1 @ [Fetch (chat_request env (prompt q found))]"
    by (rule call_fetch_calls [OF h])
  have "snd (askMemoryWithAI question env s) = s2"
    by (simp add: askMemoryWithAI_def q f h split: sum.splits)
  moreover have "calls s2 = calls s @ (KV_list # map KV_get ks @ [Fetch (chat_request env (prompt q found))])"
    by (simp add: c1 c2)
  moreover have "filter is_put (KV_list # map KV_get ks @ [Fetch (chat_request env (prompt q found))]) = []"
    by (simp add: filter_empty_conv)
  ultimately show ?thesis
    by metis
qed

section \<open>Search over the in-memory namespace\<close>

lemma search_loop_memory:
  assumes "MEMORY_KV env = memory_kv"
  shows "search_loop env (JStr q) keys results s =
     (Inr (results @ map bullet_line
             (filter (\<lambda>e. snd e \<noteq> [] \<and> matches q e)
                (concat (map (\<lambda>k. case entries (world s) k of None \<Rightarrow> [] | Some v \<Rightarrow> [(k, v)]) keys)))),
      \<lparr>world = world s, calls = calls s @ map KV_get keys\<rparr>)"
proof (induction keys arbitrary: results s)
  case Nil
  then show ?case by simp
next
  case (Cons k keys)
  have get: "call_get env k s = (Inr (entries (world s) k), \<lparr>world = world s, calls = calls s @ [KV_get k]\<rparr>)"
    by (simp add: call_get_def assms memory_kv_def)
  show ?case
    by (cases "entries (world s) k")
       (simp_all add: get Cons.IH matches_def includes_str_def bullet_line_def)
qed

lemma searchMemories_memory:
  assumes "MEMORY_KV env = memory_kv"
  shows "searchMemories (JStr q) env s =
     (listing_text q (found_entries q (world s)),
      \<lparr>world = world s, calls = calls s @ KV_list # map KV_get (listing (world s))\<rparr>)"
proof -
  have l: "call_list env s = (Inr (listing (world s)), \<lparr>world = world s, calls = calls s @ [KV_list]\<rparr>)"
    by (simp add: call_list_def assms memory_kv_def)
  show ?thesis
    by (simp add: searchMemories_def l search_loop_memory [OF assms] listing_text_def
        found_entries_def stored_entries_def)
qed

section \<open>The dispatcher on a tool call\<close>

text \<open>What \<open>handleMCP\<close> computes for a \<^verbatim>\<open>tools/call\<close> request, by tool name.\<close>

lemma handleMCP_tools_call:
  "handleMCP (tools_call n a i) env s =
     (if n = JStr ''ask_memory''
      then (case askMemoryWithAI (js_or (arg a ''question'') (JStr [])) env s of
              (Inl e, s') \<Rightarrow> (Inl e, s')
            | (Inr response, s') \<Rightarrow> (Inr (text_result response i), s'))
      else if n = JStr ''store_memory''
      then (if \<not> truthy (arg a ''key'') \<or> \<not> truthy (arg a ''value'')
            then (Inr (text_result (cross_mark @ '' Both key and value are required'') i), s)
            else (case call_put env (arg a ''key'') (arg a ''value'') s of
                    (Inl e, s') \<Rightarrow> (Inl e, s')
                  | (Inr u, s') \<Rightarrow>
                      (Inr (text_result (check_mark @ '' Stored memory: '' @ toString (arg a ''key'')) i), s')))
      else if n = JStr ''search_memory''
      then (case searchMemories (js_or (arg a ''query'') (JStr [])) env s of
              (results, s') \<Rightarrow> (Inr (text_result results i), s'))
      else (Inr (Rpc_error (- 32601) (''Unknown tool: '' @ toString n) i), s))"
  by (cases a) (auto simp add: handleMCP_def tools_call_def arg_def Let_def split: prod.splits sum.splits)

section \<open>Claims about the dispatcher\<close>





text \<open>
  C6. When the \<^verbatim>\<open>question\<close> of \<^verbatim>\<open>ask_memory\<close> is empty or trims to the empty string, the
  answer is the fixed text asking for a question, and the state is returned as it was:
  the log of calls has no new entry, so neither the key-value namespace nor the
  completion API was called, whatever they are.
\<close>

theorem ask_memory_blank_question:
  assumes "arg a ''question'' = JStr q" and "trim q = []"
  shows "handleMCP (tools_call (JStr ''ask_memory'') a i) env s =
           (Inr (Rpc_result (Content [Text (question_mark @ '' Please ask a question about your memory.'')]) i), s)"
proof -
  have "js_or (arg a ''question'') (JStr []) = JStr q \<or> js_or (arg a ''question'') (JStr []) = JStr []"
    by (simp add: js_or_def assms)
  then have "askMemoryWithAI (js_or (arg a ''question'') (JStr [])) env s =
      (Inr (question_mark @ '' Please ask a question about your memory.''), s)"
    by (auto simp: askMemoryWithAI_def assms trim_Nil)
  then show ?thesis
    by (simp add: handleMCP_tools_call text_result_def)
qed

theorem ask_memory_blank_question_witness:
  "trim ('' '' @ [CHR 0x09, CHR 0x0A] @ '' '') = []
   \<and> handleMCP (ask_memory ('' '' @ [CHR 0x09, CHR 0x0A] @ '' '') JNull) example_env (initial empty_store) =
       (Inr (Rpc_result (Content [Text (question_mark @ '' Please ask a question about your memory.'')]) JNull),
        initial empty_store)"
proof -
  have t: "trim ('' '' @ [CHR 0x09, CHR 0x0A] @ '' '') = []"
    by code_simp
  show ?thesis
    using t ask_memory_blank_question [of "Some (no_args(''question'' := JStr ('' '' @ [CHR 0x09, CHR 0x0A] @ '' '')))"
        "'' '' @ [CHR 0x09, CHR 0x0A] @ '' ''" JNull example_env "initial empty_store"]
    by (simp add: ask_memory_def arg_def)
qed

section \<open>Failures of the collaborators\<close>

lemma askMemoryWithAI_failure:
  assumes "trim q \<noteq> []"
    and "searchMemories (JStr q) env s = (found, s1)"
    and "call_fetch env (chat_request env (prompt q found)) s1 = (outcome, s2)"
    and "outcome = Inl (Error d)
         \<or> (\<exists>r. outcome = Inr r \<and> \<not> ok r \<and> d = ''OpenAI API error: '' @ nat_to_string (status r))"
  shows "askMemoryWithAI (JStr q) env s = (Inr (ai_error q (Error d) found), s2)"
  using assms by (auto simp: askMemoryWithAI_def)

lemma sublist_mid: "sublist x (a @ x @ b)"
  by (auto simp: sublist_def)

text \<open>
  C7. For a question that does not trim to the empty string, when the completion call
  fails, by a thrown transport error or by an answer whose status is not from 200 to 299,
  \<^verbatim>\<open>ask_memory\<close> answers with a text made of the question, the notice \<^verbatim>\<open>**AI Error**\<close>
  followed by the description of the failure (the message of the error, or
  \<^verbatim>\<open>OpenAI API error: <status>\<close>), and at its end the text that \<^verbatim>\<open>searchMemories\<close> returned
  for the question.
\<close>

theorem ask_memory_completion_failure:
  assumes "arg a ''question'' = JStr q" and "trim q \<noteq> []"
    and "searchMemories (JStr q) env s = (found, s1)"
    and "call_fetch env (chat_request env (prompt q found)) s1 = (outcome, s2)"
    and "outcome = Inl (Error d)
         \<or> (\<exists>r. outcome = Inr r \<and> \<not> ok r \<and> d = ''OpenAI API error: '' @ nat_to_string (status r))"
  shows "\<exists>text. handleMCP (tools_call (JStr ''ask_memory'') a i) env s =
             (Inr (Rpc_result (Content [Text text]) i), s2)
           \<and> text = brain @ '' **Memory Query**: '' @ dq @ q @ dq @ nl @ nl
                    @ cross_mark @ '' **AI Error**: '' @ d @ nl @ nl
                    @ clipboard @ '' **Found memories**: '' @ found
           \<and> sublist q text \<and> sublist (cross_mark @ '' **AI Error**: '' @ d) text \<and> suffix found text"
proof -
  let ?text = "brain @ '' **Memory Query**: '' @ dq @ q @ dq @ nl @ nl
                 @ cross_mark @ '' **AI Error**: '' @ d @ nl @ nl
                 @ clipboard @ '' **Found memories**: '' @ found"
  have "q \<noteq> []"
    using assms(2) by (rule trim_nonempty)
  then have "js_or (arg a ''question'') (JStr []) = JStr q"
    by (simp add: js_or_def assms(1))
  then have "handleMCP (tools_call (JStr ''ask_memory'') a i) env s =
      (Inr (Rpc_result (Content [Text ?text]) i), s2)"
    by (simp add: handleMCP_tools_call askMemoryWithAI_failure [OF assms(2-5)]
        text_result_def ai_error_def)
  moreover have "sublist q ?text"
    using sublist_mid [of q "brain @ '' **Memory Query**: '' @ dq"] by simp
  moreover have "sublist (cross_mark @ '' **AI Error**: '' @ d) ?text"
    using sublist_mid [of "cross_mark @ '' **AI Error**: '' @ d"
        "brain @ '' **Memory Query**: '' @ dq @ q @ dq @ nl @ nl"] by simp
  moreover have "suffix found ?text"
    unfolding suffix_def by (metis append.assoc)
  ultimately show ?thesis
    by blast
qed

theorem ask_memory_completion_failure_witness:
  "(\<exists>text. handleMCP (ask_memory ''who'' (JNum 3)) example_env (initial empty_store) =
            (Inr (Rpc_result (Content [Text text]) (JNum 3)),
             \<lparr>world = empty_store,
              calls = [KV_list, Fetch (chat_request example_env
                         (prompt ''who'' (''No memories found matching '' @ dq @ ''who'' @ dq)))]\<rparr>)
     \<and> text = brain @ '' **Memory Query**: '' @ dq @ ''who'' @ dq @ nl @ nl
              @ cross_mark @ '' **AI Error**: fetch failed'' @ nl @ nl
              @ clipboard @ '' **Found memories**: No memories found matching '' @ dq @ ''who'' @ dq)
   \<and> (\<exists>text. fst (handleMCP (ask_memory ''who'' (JNum 4)) rejecting_env (initial empty_store)) =
            Inr (Rpc_result (Content [Text text]) (JNum 4))
     \<and> text = brain @ '' **Memory Query**: '' @ dq @ ''who'' @ dq @ nl @ nl
              @ cross_mark @ '' **AI Error**: OpenAI API error: 500'' @ nl @ nl
              @ clipboard @ '' **Found memories**: No memories found matching '' @ dq @ ''who'' @ dq)"
proof -
  let ?found = "''No memories found matching '' @ dq @ ''who'' @ dq"
  have t: "trim ''who'' \<noteq> []"
    by code_simp
  have f: "searchMemories (JStr ''who'') example_env (initial empty_store) =
      (?found, \<lparr>world = empty_store, calls = [KV_list]\<rparr>)"
    by (simp add: searchMemories_def call_list_def example_env_def memory_kv_def initial_def
        empty_store_def)
  have c: "call_fetch example_env (chat_request example_env (prompt ''who'' ?found))
      \<lparr>world = empty_store, calls = [KV_list]\<rparr> =
      (Inl (Error ''fetch failed''),
       \<lparr>world = empty_store,
        calls = [KV_list, Fetch (chat_request example_env (prompt ''who'' ?found))]\<rparr>)"
    by (simp add: call_fetch_def example_env_def offline_def)
  have 1: "\<exists>text. handleMCP (ask_memory ''who'' (JNum 3)) example_env (initial empty_store) =
            (Inr (Rpc_result (Content [Text text]) (JNum 3)),
             \<lparr>world = empty_store,
              calls = [KV_list, Fetch (chat_request example_env (prompt ''who'' ?found))]\<rparr>)
     \<and> text = brain @ '' **Memory Query**: '' @ dq @ ''who'' @ dq @ nl @ nl
              @ cross_mark @ '' **AI Error**: fetch failed'' @ nl @ nl
              @ clipboard @ '' **Found memories**: No memories found matching '' @ dq @ ''who'' @ dq"
    using ask_memory_completion_failure [where a = "Some (no_args(''question'' := JStr ''who''))"
        and i = "JNum 3" and d = "''fetch failed''", OF _ t f c]
    by (simp add: arg_def ask_memory_def)
  have f': "searchMemories (JStr ''who'') rejecting_env (initial empty_store) =
      (?found, \<lparr>world = empty_store, calls = [KV_list]\<rparr>)"
    by (simp add: searchMemories_def call_list_def rejecting_env_def example_env_def memory_kv_def
        initial_def empty_store_def)
  have c': "call_fetch rejecting_env (chat_request rejecting_env (prompt ''who'' ?found))
      \<lparr>world = empty_store, calls = [KV_list]\<rparr> =
      (Inr \<lparr>status = 500, first_choice = Inl (Error ''Unexpected end of JSON input'')\<rparr>,
       \<lparr>world = empty_store,
        calls = [KV_list, Fetch (chat_request rejecting_env (prompt ''who'' ?found))]\<rparr>)"
    by (simp add: call_fetch_def rejecting_env_def example_env_def failing_upstream_def)
  have n: "nat_to_string 500 = ''500''"
    by code_simp
  have o: "Inr \<lparr>status = 500, first_choice = Inl (Error ''Unexpected end of JSON input'')\<rparr> =
        Inl (Error ''OpenAI API error: 500'')
      \<or> (\<exists>r. Inr \<lparr>status = 500, first_choice = Inl (Error ''Unexpected end of JSON input'')\<rparr> = Inr r
            \<and> \<not> ok r \<and> ''OpenAI API error: 500'' = ''OpenAI API error: '' @ nat_to_string (status r))"
    by (simp add: ok_def n)
  have 2: "\<exists>text. fst (handleMCP (ask_memory ''who'' (JNum 4)) rejecting_env (initial empty_store)) =
            Inr (Rpc_result (Content [Text text]) (JNum 4))
     \<and> text = brain @ '' **Memory Query**: '' @ dq @ ''who'' @ dq @ nl @ nl
              @ cross_mark @ '' **AI Error**: OpenAI API error: 500'' @ nl @ nl
              @ clipboard @ '' **Found memories**: No memories found matching '' @ dq @ ''who'' @ dq"
    using ask_memory_completion_failure [where a = "Some (no_args(''question'' := JStr ''who''))"
        and i = "JNum 4" and d = "''OpenAI API error: 500''", OF _ t f' c' o]
    by (simp add: arg_def ask_memory_def)
  from 1 2 show ?thesis
    by blast
qed











section \<open>Store and search on the in-memory namespace\<close>

lemma join_sublist: "x \<in> set xs \<Longrightarrow> sublist x (join sep xs)"
proof (induction sep xs rule: join.induct)
  case (1 sep)
  then show ?case by simp
next
  case (2 sep y)
  then show ?case by simp
next
  case (3 sep y z zs)
  show ?case
  proof (cases "x = y")
    case True
    then show ?thesis by simp
  next
    case False
    with 3 have "sublist x (join sep (z # zs))"
      by simp
    then have "sublist x ((y @ sep) @ join sep (z # zs))"
      by (rule sublist_order.order.trans) (rule sublist_append_leftI)
    then show ?thesis
      by simp
  qed
qed

lemma listing_text_bullet:
  assumes "e \<in> set es"
  shows "sublist (bullet_line e) (listing_text q es)"
proof -
  have ne: "es \<noteq> []"
    using assms by auto
  have "sublist (bullet_line e) (join nl (map bullet_line es))"
    using assms by (intro join_sublist) simp
  then have "sublist (bullet_line e)
      ((''Found '' @ nat_to_string (length es) @ '' memories:'' @ nl) @ join nl (map bullet_line es))"
    by (rule sublist_order.order.trans) (rule sublist_append_leftI)
  then show ?thesis
    using ne by (simp add: listing_text_def)
qed

lemma bullet_line_entry: "sublist (fst e @ '': '' @ snd e) (bullet_line e)"
proof -
  have "sublist (fst e @ '': '' @ snd e) ((bullet @ '' '') @ (fst e @ '': '' @ snd e))"
    by (rule sublist_append_leftI)
  then show ?thesis
    by (simp add: bullet_line_def)
qed

lemma search_memory_memory:
  assumes "MEMORY_KV env = memory_kv" and "arg a ''query'' = JStr q"
  shows "handleMCP (tools_call (JStr ''search_memory'') a i) env s =
     (Inr (Rpc_result (Content [Text (listing_text q (found_entries q (world s)))]) i),
      \<lparr>world = world s, calls = calls s @ KV_list # map KV_get (listing (world s))\<rparr>)"
proof -
  have "js_or (arg a ''query'') (JStr []) = JStr q"
    by (simp add: js_or_def assms(2))
  then show ?thesis
    by (simp add: handleMCP_tools_call searchMemories_memory [OF assms(1)] text_result_def)
qed

lemma store_memory_memory:
  assumes "MEMORY_KV env = memory_kv" and "k \<noteq> []" and "v \<noteq> []"
  shows "handleMCP (store_memory k v i) env s =
     (Inr (Rpc_result (Content [Text (check_mark @ '' Stored memory: '' @ k)]) i),
      \<lparr>world = memory_put k v (world s), calls = calls s @ [KV_put (JStr k) (JStr v)]\<rparr>)"
  using assms
  by (simp add: store_memory_def handleMCP_tools_call arg_def no_args_def call_put_def
      memory_kv_def text_result_def)

lemma stored_entries_put:
  "(k, v) \<in> set (stored_entries (memory_put k v w))"
  by (auto simp: stored_entries_def memory_put_def)

lemma matches_self: "matches k (k, v)"
  by (simp add: matches_def)

text \<open>
  C1. On the in-memory namespace, in any state: after a \<^verbatim>\<open>store_memory\<close> of a non-empty
  key \<open>k\<close> with a non-empty value \<open>v\<close>, which answers the confirmation naming the key, a
  \<^verbatim>\<open>search_memory\<close> of the query \<open>k\<close> answers a result envelope whose single text block is
  the count line followed by the bullet lines, of which \<^verbatim>\<open>\<bullet> k: v\<close> is one; so the text
  contains \<^verbatim>\<open>k: v\<close>.
\<close>

theorem store_then_search:
  assumes "k \<noteq> []" and "v \<noteq> []"
  shows "\<exists>s1 s2 text.
           handleMCP (store_memory k v i) (env\<lparr>MEMORY_KV := memory_kv\<rparr>) s =
             (Inr (Rpc_result (Content [Text (check_mark @ '' Stored memory: '' @ k)]) i), s1)
         \<and> handleMCP (search_memory k j) (env\<lparr>MEMORY_KV := memory_kv\<rparr>) s1 =
             (Inr (Rpc_result (Content [Text text]) j), s2)
         \<and> (\<exists>lines. text = ''Found '' @ nat_to_string (length lines) @ '' memories:'' @ nl
                            @ join nl lines
                    \<and> bullet @ '' '' @ k @ '': '' @ v \<in> set lines)
         \<and> sublist (k @ '': '' @ v) text"
proof -
  let ?env = "env\<lparr>MEMORY_KV := memory_kv\<rparr>"
  let ?w1 = "memory_put k v (world s)"
  let ?s1 = "\<lparr>world = ?w1, calls = calls s @ [KV_put (JStr k) (JStr v)]\<rparr>"
  let ?text = "listing_text k (found_entries k ?w1)"
  have kv: "MEMORY_KV ?env = memory_kv"
    by simp
  have 1: "handleMCP (store_memory k v i) ?env s =
      (Inr (Rpc_result (Content [Text (check_mark @ '' Stored memory: '' @ k)]) i), ?s1)"
    by (rule store_memory_memory [OF kv assms])
  have 2: "handleMCP (search_memory k j) ?env ?s1 =
      (Inr (Rpc_result (Content [Text ?text]) j),
       \<lparr>world = world ?s1, calls = calls ?s1 @ KV_list # map KV_get (listing (world ?s1))\<rparr>)"
    using search_memory_memory [OF kv, of "Some (no_args(''query'' := JStr k))" k j ?s1]
    by (simp add: search_memory_def arg_def)
  have "(k, v) \<in> set (found_entries k ?w1)"
    using assms(2) by (simp add: found_entries_def stored_entries_put matches_self)
  then have m: "(k, v) \<in> set (found_entries k ?w1)" .
  then have b: "sublist (bullet_line (k, v)) ?text"
    by (rule listing_text_bullet)
  have "found_entries k ?w1 \<noteq> []"
    using m by auto
  then have "?text = ''Found '' @ nat_to_string (length (map bullet_line (found_entries k ?w1)))
        @ '' memories:'' @ nl @ join nl (map bullet_line (found_entries k ?w1))"
    by (simp add: listing_text_def)
  moreover have "bullet @ '' '' @ k @ '': '' @ v \<in> set (map bullet_line (found_entries k ?w1))"
    using m by (force simp: bullet_line_def)
  ultimately have l: "\<exists>lines. ?text = ''Found '' @ nat_to_string (length lines) @ '' memories:'' @ nl
                            @ join nl lines
                    \<and> bullet @ '' '' @ k @ '': '' @ v \<in> set lines"
    by blast
  have "sublist (k @ '': '' @ v) (bullet_line (k, v))"
    using bullet_line_entry [of "(k, v)"] by simp
  then have "sublist (k @ '': '' @ v) ?text"
    using b by (rule sublist_order.order.trans)
  with 1 2 l show ?thesis
    by blast
qed

theorem store_then_search_witness:
  "''a'' \<noteq> [] \<and> ''b'' \<noteq> []
   \<and> handleMCP (store_memory ''a'' ''b'' (JNum 1)) example_env (initial empty_store) =
       (Inr (Rpc_result (Content [Text (check_mark @ '' Stored memory: a'')]) (JNum 1)),
        \<lparr>world = \<lparr>listing = [''a''], entries = (\<lambda>_. None)(''a'' \<mapsto> ''b'')\<rparr>,
         calls = [KV_put (JStr ''a'') (JStr ''b'')]\<rparr>)
   \<and> (\<exists>text s2. handleMCP (search_memory ''a'' (JNum 2)) example_env
         \<lparr>world = \<lparr>listing = [''a''], entries = (\<lambda>_. None)(''a'' \<mapsto> ''b'')\<rparr>,
          calls = [KV_put (JStr ''a'') (JStr ''b'')]\<rparr> =
         (Inr (Rpc_result (Content [Text text]) (JNum 2)), s2)
       \<and> sublist ''a: b'' text)"
proof -
  have e: "example_env\<lparr>MEMORY_KV := memory_kv\<rparr> = example_env"
    by (simp add: example_env_def)
  have "handleMCP (store_memory ''a'' ''b'' (JNum 1)) example_env (initial empty_store) =
       (Inr (Rpc_result (Content [Text (check_mark @ '' Stored memory: a'')]) (JNum 1)),
        \<lparr>world = \<lparr>listing = [''a''], entries = (\<lambda>_. None)(''a'' \<mapsto> ''b'')\<rparr>,
         calls = [KV_put (JStr ''a'') (JStr ''b'')]\<rparr>)"
    by (simp add: store_memory_def handleMCP_tools_call arg_def no_args_def call_put_def
      memory_kv_def text_result_def example_env_def initial_def empty_store_def memory_put_def)
  then show ?thesis
    using store_then_search [of "''a''" "''b''" "JNum 1" example_env "initial empty_store" "JNum 2"]
    by (simp add: e) blast
qed




lemma stored_entries_iff:
  "e \<in> set (stored_entries w) \<longleftrightarrow> fst e \<in> set (listing w) \<and> entries w (fst e) = Some (snd e)"
  by (cases e) (auto simp: stored_entries_def split: option.splits)

lemma found_entries_empty_query:
  "found_entries [] w = filter (\<lambda>e. snd e \<noteq> []) (stored_entries w)"
  by (simp add: found_entries_def matches_def toLowerCase_def)

lemma found_entries_nonempty:
  "e \<in> set (found_entries q w) \<Longrightarrow> snd e \<noteq> [] \<and> entries w (fst e) = Some (snd e)"
  by (simp add: found_entries_def stored_entries_iff)

lemma found_entries_none:
  assumes "\<forall>k \<in> set (listing w). entries w k = None \<or> entries w k = Some []"
  shows "found_entries q w = []"
proof -
  have "\<not> (snd e \<noteq> [] \<and> matches q e)" if "e \<in> set (stored_entries w)" for e
    using that assms by (auto simp: stored_entries_iff)
  then show ?thesis
    by (simp add: found_entries_def filter_empty_conv)
qed

lemma search_memory_text:
  "fst (handleMCP (search_memory q i) (env\<lparr>MEMORY_KV := memory_kv\<rparr>) s) =
     Inr (Rpc_result (Content [Text (listing_text q (found_entries q (world s)))]) i)"
proof -
  have "MEMORY_KV (env\<lparr>MEMORY_KV := memory_kv\<rparr>) = memory_kv"
    by simp
  then have "handleMCP (search_memory q i) (env\<lparr>MEMORY_KV := memory_kv\<rparr>) s =
     (Inr (Rpc_result (Content [Text (listing_text q (found_entries q (world s)))]) i),
      \<lparr>world = world s, calls = calls s @ KV_list # map KV_get (listing (world s))\<rparr>)"
    unfolding search_memory_def by (rule search_memory_memory) (simp add: arg_def)
  then show ?thesis
    by simp
qed

text \<open>
  C10. On the in-memory namespace, \<^verbatim>\<open>search_memory\<close> with the empty query returns exactly
  the entries whose value is a non-empty string. For every query, each entry returned has
  a value that is present and not empty; and where every listed key has an empty or an
  absent value, every query, also one that is a substring of a key, is answered by
  \<^verbatim>\<open>No memories found matching "q"\<close>.
\<close>

theorem empty_query_and_empty_values:
  "fst (handleMCP (search_memory [] i) (env\<lparr>MEMORY_KV := memory_kv\<rparr>) s) =
     Inr (Rpc_result (Content [Text
       (listing_text [] (filter (\<lambda>e. snd e \<noteq> []) (stored_entries (world s))))]) i)
   \<and> fst (handleMCP (search_memory q i) (env\<lparr>MEMORY_KV := memory_kv\<rparr>) s) =
       Inr (Rpc_result (Content [Text (listing_text q (found_entries q (world s)))]) i)
   \<and> (\<forall>e \<in> set (found_entries q (world s)).
         snd e \<noteq> [] \<and> entries (world s) (fst e) = Some (snd e))
   \<and> ((\<forall>k \<in> set (listing (world s)). entries (world s) k = None \<or> entries (world s) k = Some []) \<longrightarrow>
        fst (handleMCP (search_memory q i) (env\<lparr>MEMORY_KV := memory_kv\<rparr>) s) =
          Inr (Rpc_result (Content [Text (''No memories found matching '' @ dq @ q @ dq)]) i))"
proof (intro conjI impI ballI)
  show "fst (handleMCP (search_memory [] i) (env\<lparr>MEMORY_KV := memory_kv\<rparr>) s) =
     Inr (Rpc_result (Content [Text
       (listing_text [] (filter (\<lambda>e. snd e \<noteq> []) (stored_entries (world s))))]) i)"
    by (simp add: search_memory_text found_entries_empty_query)
next
  show "fst (handleMCP (search_memory q i) (env\<lparr>MEMORY_KV := memory_kv\<rparr>) s) =
       Inr (Rpc_result (Content [Text (listing_text q (found_entries q (world s)))]) i)"
    by (rule search_memory_text)
next
  fix e
  assume "e \<in> set (found_entries q (world s))"
  then show "snd e \<noteq> []" and "entries (world s) (fst e) = Some (snd e)"
    by (simp_all add: found_entries_nonempty)
next
  assume "\<forall>k \<in> set (listing (world s)). entries (world s) k = None \<or> entries (world s) k = Some []"
  then have "found_entries q (world s) = []"
    by (rule found_entries_none)
  then show "fst (handleMCP (search_memory q i) (env\<lparr>MEMORY_KV := memory_kv\<rparr>) s) =
          Inr (Rpc_result (Content [Text (''No memories found matching '' @ dq @ q @ dq)]) i)"
    by (simp add: search_memory_text listing_text_def)
qed

theorem empty_query_and_empty_values_witness:
  "fst (handleMCP (search_memory [] JNull) example_env (initial mixed_store)) =
     Inr (Rpc_result (Content [Text (''Found 1 memories:'' @ nl @ bullet @ '' b: x'')]) JNull)
   \<and> listing blank_store = [''a''] \<and> entries blank_store ''a'' = Some []
   \<and> fst (handleMCP (search_memory ''a'' JNull) example_env (initial blank_store)) =
     Inr (Rpc_result (Content [Text (''No memories found matching '' @ dq @ ''a'' @ dq)]) JNull)"
proof -
  have e: "example_env\<lparr>MEMORY_KV := memory_kv\<rparr> = example_env"
    by (simp add: example_env_def)
  have n: "nat_to_string (Suc 0) = ''1''"
    by code_simp
  have m: "listing_text [] (filter (\<lambda>e. snd e \<noteq> []) (stored_entries mixed_store)) =
      ''Found 1 memories:'' @ nl @ bullet @ '' b: x''"
    by (simp add: stored_entries_def mixed_store_def listing_text_def bullet_line_def n)
  have b: "\<forall>k \<in> set (listing blank_store). entries blank_store k = None \<or> entries blank_store k = Some []"
    by (simp add: blank_store_def)
  have w: "world (initial mixed_store) = mixed_store" "world (initial blank_store) = blank_store"
    by (simp_all add: initial_def)
  have 1: "fst (handleMCP (search_memory [] JNull) example_env (initial mixed_store)) =
     Inr (Rpc_result (Content [Text (''Found 1 memories:'' @ nl @ bullet @ '' b: x'')]) JNull)"
    using empty_query_and_empty_values [of JNull example_env "initial mixed_store" "[]", unfolded e w m]
    by blast
  have 2: "fst (handleMCP (search_memory ''a'' JNull) example_env (initial blank_store)) =
     Inr (Rpc_result (Content [Text (''No memories found matching '' @ dq @ ''a'' @ dq)]) JNull)"
    using empty_query_and_empty_values [of JNull example_env "initial blank_store" "''a''", unfolded e w] b
    by blast
  have 3: "listing blank_store = [''a'']" "entries blank_store ''a'' = Some []"
    by (simp_all add: blank_store_def)
  from 1 2 3 show ?thesis
    by blast
qed

section \<open>Overwriting, and what each tool touches\<close>

lemma memory_put_twice: "memory_put k v' (memory_put k v w) = memory_put k v' w"
  by (simp add: memory_put_def)

lemma memory_put_distinct: "distinct (listing w) \<Longrightarrow> distinct (listing (memory_put k v w))"
  by (simp add: memory_put_def)

lemma serve_stores:
  assumes "MEMORY_KV env = memory_kv" and "k \<noteq> []"
  shows "vis \<noteq> [] \<Longrightarrow> \<forall>x \<in> set vis. fst x \<noteq> [] \<Longrightarrow>
     world (serve env (map (\<lambda>x. store_memory k (fst x) (snd x)) vis) s) =
       memory_put k (fst (last vis)) (world s)"
proof (induction vis arbitrary: s)
  case Nil
  then show ?case by simp
next
  case (Cons x xs)
  let ?s1 = "snd (handleMCP (store_memory k (fst x) (snd x)) env s)"
  have 1: "world ?s1 = memory_put k (fst x) (world s)"
    using Cons.prems(2) by (simp add: store_memory_memory [OF assms])
  show ?case
  proof (cases "xs = []")
    case True
    then show ?thesis
      using 1 by simp
  next
    case False
    then have "world (serve env (map (\<lambda>x. store_memory k (fst x) (snd x)) xs) ?s1) =
        memory_put k (fst (last xs)) (world ?s1)"
      using Cons.IH [of ?s1] Cons.prems(2) by simp
    then show ?thesis
      using False by (simp add: 1 memory_put_twice)
  qed
qed

lemma filter_key_stored_entries:
  assumes "distinct (listing w)"
  shows "filter (\<lambda>e. fst e = k) (stored_entries w) =
           (case entries w k of
              None \<Rightarrow> []
            | Some v \<Rightarrow> if k \<in> set (listing w) then [(k, v)] else [])"
proof -
  have "distinct ks \<Longrightarrow>
      filter (\<lambda>e. fst e = k)
        (concat (map (\<lambda>k. case entries w k of None \<Rightarrow> [] | Some v \<Rightarrow> [(k, v)]) ks)) =
      (case entries w k of None \<Rightarrow> [] | Some v \<Rightarrow> if k \<in> set ks then [(k, v)] else [])" for ks
    by (induction ks) (auto split: option.splits)
  then show ?thesis
    using assms by (simp add: stored_entries_def)
qed

lemma filter_key_put:
  assumes "distinct (listing w)"
  shows "filter (\<lambda>e. fst e = k) (stored_entries (memory_put k v w)) = [(k, v)]"
proof -
  have "distinct (listing (memory_put k v w))"
    using assms by (rule memory_put_distinct)
  then show ?thesis
    by (simp add: filter_key_stored_entries) (simp add: memory_put_def)
qed

lemma found_entries_key:
  "length (filter (\<lambda>e. fst e = k) (found_entries q w)) \<le>
     length (filter (\<lambda>e. fst e = k) (stored_entries w))"
proof -
  have eq: "filter (\<lambda>e. fst e = k) (found_entries q w) =
      filter (\<lambda>e. snd e \<noteq> [] \<and> matches q e) (filter (\<lambda>e. fst e = k) (stored_entries w))"
    by (simp add: found_entries_def conj_commute)
  show ?thesis
    unfolding eq by (rule length_filter_le)
qed

text \<open>
  C8. On the in-memory namespace with unique keys: after any non-empty sequence of
  \<^verbatim>\<open>store_memory\<close> calls on one non-empty key \<open>k\<close>, with non-empty values, the value read
  back for \<open>k\<close> is the last one written, the keys are still unique, the namespace holds
  exactly one entry for \<open>k\<close>, with that value, and a search for any query returns at most
  one entry for \<open>k\<close>.
\<close>

theorem store_memory_last_write_wins:
  assumes "k \<noteq> []" and "vis \<noteq> []" and "\<forall>x \<in> set vis. fst x \<noteq> []"
    and "distinct (listing (world s))"
    and "s' = serve (env\<lparr>MEMORY_KV := memory_kv\<rparr>) (map (\<lambda>x. store_memory k (fst x) (snd x)) vis) s"
  shows "entries (world s') k = Some (fst (last vis))
       \<and> distinct (listing (world s'))
       \<and> filter (\<lambda>e. fst e = k) (stored_entries (world s')) = [(k, fst (last vis))]
       \<and> fst (handleMCP (search_memory q j) (env\<lparr>MEMORY_KV := memory_kv\<rparr>) s') =
           Inr (Rpc_result (Content [Text (listing_text q (found_entries q (world s')))]) j)
       \<and> length (filter (\<lambda>e. fst e = k) (found_entries q (world s'))) \<le> 1"
proof -
  have kv: "MEMORY_KV (env\<lparr>MEMORY_KV := memory_kv\<rparr>) = memory_kv"
    by simp
  have w: "world s' = memory_put k (fst (last vis)) (world s)"
    unfolding assms(5) by (rule serve_stores [OF kv assms(1-3)])
  have 1: "entries (world s') k = Some (fst (last vis))"
    by (simp add: w memory_put_def)
  have 2: "distinct (listing (world s'))"
    unfolding w using assms(4) by (rule memory_put_distinct)
  have 3: "filter (\<lambda>e. fst e = k) (stored_entries (world s')) = [(k, fst (last vis))]"
    unfolding w using assms(4) by (rule filter_key_put)
  have 4: "fst (handleMCP (search_memory q j) (env\<lparr>MEMORY_KV := memory_kv\<rparr>) s') =
           Inr (Rpc_result (Content [Text (listing_text q (found_entries q (world s')))]) j)"
    by (rule search_memory_text)
  have 5: "length (filter (\<lambda>e. fst e = k) (found_entries q (world s'))) \<le> 1"
    using found_entries_key [of k q "world s'"] by (simp add: 3)
  from 1 2 3 4 5 show ?thesis
    by blast
qed

theorem store_memory_last_write_wins_witness:
  "entries (world (serve example_env
       [store_memory ''a'' ''b'' (JNum 1), store_memory ''a'' ''c'' (JNum 2)]
       (initial empty_store))) ''a'' = Some ''c''
   \<and> filter (\<lambda>e. fst e = ''a'') (stored_entries (world (serve example_env
       [store_memory ''a'' ''b'' (JNum 1), store_memory ''a'' ''c'' (JNum 2)]
       (initial empty_store)))) = [(''a'', ''c'')]"
proof -
  have e: "example_env\<lparr>MEMORY_KV := memory_kv\<rparr> = example_env"
    by (simp add: example_env_def)
  have d: "distinct (listing (world (initial empty_store)))"
    by (simp add: initial_def empty_store_def)
  have n: "\<forall>x \<in> set [(''b'', JNum 1), (''c'', JNum 2)]. fst x \<noteq> []"
    by simp
  show ?thesis
    using store_memory_last_write_wins [of "''a''" "[(''b'', JNum 1), (''c'', JNum 2)]"
        "initial empty_store" _ example_env, OF _ _ n d refl]
    by (simp add: e)
qed

lemma call_get_world:
  "MEMORY_KV env = memory_kv \<Longrightarrow> world (snd (call_get env k s)) = world s"
  by (simp add: call_get_def memory_kv_def)

lemma search_loop_world:
  assumes "MEMORY_KV env = memory_kv"
  shows "world (snd (search_loop env query keys results s)) = world s"
proof (induction keys arbitrary: results s)
  case Nil
  then show ?case by simp
next
  case (Cons k keys)
  obtain r s' where g: "call_get env k s = (r, s')"
    by (cases "call_get env k s")
  have w: "world s' = world s"
    using call_get_world [OF assms, of k s] g by simp
  have "world (snd (search_loop env query keys res s')) = world s" for res
    using Cons.IH [of res s'] w by simp
  then show ?case
    using w by (auto simp: g split: sum.splits option.splits jsval.splits)
qed

lemma searchMemories_world:
  assumes "MEMORY_KV env = memory_kv"
  shows "world (snd (searchMemories query env s)) = world s"
proof -
  have l: "call_list env s = (Inr (listing (world s)), \<lparr>world = world s, calls = calls s @ [KV_list]\<rparr>)"
    by (simp add: call_list_def assms memory_kv_def)
  have "world (snd (search_loop env query (listing (world s)) []
      \<lparr>world = world s, calls = calls s @ [KV_list]\<rparr>)) = world s"
    using search_loop_world [OF assms, of query "listing (world s)" "[]"
        "\<lparr>world = world s, calls = calls s @ [KV_list]\<rparr>"] by simp
  then show ?thesis
    by (auto simp: searchMemories_def l split: prod.splits sum.splits)
qed

lemma askMemoryWithAI_world:
  assumes "MEMORY_KV env = memory_kv" and "\<forall>req w. snd (http_fetch env req w) = w"
  shows "world (snd (askMemoryWithAI question env s)) = world s"
proof (cases "\<exists>q. question = JStr q \<and> trim q \<noteq> []")
  case False
  then have "snd (askMemoryWithAI question env s) = s"
    by (auto simp: askMemoryWithAI_def split: jsval.splits)
  then show ?thesis
    by simp
next
  case True
  then obtain q where q: "question = JStr q" "trim q \<noteq> []"
    by blast
  obtain found s1 where f: "searchMemories (JStr q) env s = (found, s1)"
    by (cases "searchMemories (JStr q) env s")
  have w1: "world s1 = world s"
    using searchMemories_world [OF assms(1), of "JStr q" s] f by simp
  obtain r s2 where h: "call_fetch env (chat_request env (prompt q found)) s1 = (r, s2)"
    by (cases "call_fetch env (chat_request env (prompt q found)) s1")
  have "world s2 = snd (http_fetch env (chat_request env (prompt q found)) (world s1))"
    using h by (auto simp: call_fetch_def split: prod.splits)
  then have w2: "world s2 = world s"
    using assms(2) w1 by simp
  have "snd (askMemoryWithAI question env s) = s2"
    by (simp add: askMemoryWithAI_def q f h split: sum.splits)
  then show ?thesis
    using w2 by simp
qed

lemma handleMCP_search_calls:
  "\<exists>ks. calls (snd (handleMCP (tools_call (JStr ''search_memory'') a i) env s)) =
          calls s @ KV_list # map KV_get ks"
  using searchMemories_calls [of "js_or (arg a ''query'') (JStr [])" env s]
  by (auto simp: handleMCP_tools_call split: prod.splits)

lemma handleMCP_ask_calls:
  "\<exists>new. calls (snd (handleMCP (tools_call (JStr ''ask_memory'') a i) env s)) = calls s @ new
          \<and> filter is_put new = []"
  using askMemoryWithAI_calls [of "js_or (arg a ''question'') (JStr [])" env s]
  by (auto simp: handleMCP_tools_call split: prod.splits sum.splits)

lemma handleMCP_search_world:
  "world (snd (handleMCP (tools_call (JStr ''search_memory'') a i)
       (env\<lparr>MEMORY_KV := memory_kv\<rparr>) s)) = world s"
  using searchMemories_world [of "env\<lparr>MEMORY_KV := memory_kv\<rparr>" "js_or (arg a ''query'') (JStr [])" s]
  by (auto simp: handleMCP_tools_call split: prod.splits)

lemma handleMCP_ask_world:
  assumes "\<forall>req w. snd (http_fetch env req w) = w"
  shows "world (snd (handleMCP (tools_call (JStr ''ask_memory'') a i)
       (env\<lparr>MEMORY_KV := memory_kv\<rparr>) s)) = world s"
  using askMemoryWithAI_world [of "env\<lparr>MEMORY_KV := memory_kv\<rparr>"
      "js_or (arg a ''question'') (JStr [])" s] assms
  by (auto simp: handleMCP_tools_call split: prod.splits sum.splits)

lemma handleMCP_store_calls:
  assumes "truthy (arg a ''key'')" and "truthy (arg a ''value'')"
  shows "calls (snd (handleMCP (tools_call (JStr ''store_memory'') a i) env s)) =
           calls s @ [KV_put (arg a ''key'') (arg a ''value'')]"
  using assms
  by (auto simp: handleMCP_tools_call call_put_def split: prod.splits sum.splits)

lemma handleMCP_store_world:
  assumes "k \<noteq> []" and "v \<noteq> []"
  shows "world (snd (handleMCP (store_memory k v i) (env\<lparr>MEMORY_KV := memory_kv\<rparr>) s)) =
           memory_put k v (world s)"
proof -
  have "MEMORY_KV (env\<lparr>MEMORY_KV := memory_kv\<rparr>) = memory_kv"
    by simp
  then show ?thesis
    using assms by (simp add: store_memory_memory)
qed

text \<open>
  C9. For every environment, \<^verbatim>\<open>search_memory\<close> calls \<^verbatim>\<open>list\<close> once and then only \<^verbatim>\<open>get\<close>, and
  none of the calls of \<^verbatim>\<open>ask_memory\<close> is a \<^verbatim>\<open>put\<close>; on the in-memory namespace a search
  leaves the namespace as it was, and so does \<^verbatim>\<open>ask_memory\<close> when the completion API does
  not touch it. A \<^verbatim>\<open>store_memory\<close> with truthy key and value makes exactly one call, the
  \<^verbatim>\<open>put\<close> of that key and value; on the in-memory namespace it sets the value of its key
  and leaves the value of every other key, and the other listed keys, unchanged.
\<close>

theorem reads_do_not_write_and_store_writes_one_key:
  "(\<exists>ks. calls (snd (handleMCP (tools_call (JStr ''search_memory'') a i) env s)) =
           calls s @ KV_list # map KV_get ks)
   \<and> (\<exists>new. calls (snd (handleMCP (tools_call (JStr ''ask_memory'') a i) env s)) = calls s @ new
           \<and> filter is_put new = [])
   \<and> world (snd (handleMCP (tools_call (JStr ''search_memory'') a i)
        (menv\<lparr>MEMORY_KV := memory_kv\<rparr>) t)) = world t
   \<and> ((\<forall>req w. snd (http_fetch menv req w) = w) \<longrightarrow>
        world (snd (handleMCP (tools_call (JStr ''ask_memory'') a i)
          (menv\<lparr>MEMORY_KV := memory_kv\<rparr>) t)) = world t)
   \<and> (truthy (arg a ''key'') \<and> truthy (arg a ''value'') \<longrightarrow>
        calls (snd (handleMCP (tools_call (JStr ''store_memory'') a i) env s)) =
          calls s @ [KV_put (arg a ''key'') (arg a ''value'')])
   \<and> (k \<noteq> [] \<and> v \<noteq> [] \<longrightarrow>
        entries (world (snd (handleMCP (store_memory k v i) (menv\<lparr>MEMORY_KV := memory_kv\<rparr>) t))) k
          = Some v
        \<and> (\<forall>k'. k' \<noteq> k \<longrightarrow>
              entries (world (snd (handleMCP (store_memory k v i) (menv\<lparr>MEMORY_KV := memory_kv\<rparr>) t))) k'
                = entries (world t) k')
        \<and> filter (\<lambda>x. x \<noteq> k)
            (listing (world (snd (handleMCP (store_memory k v i) (menv\<lparr>MEMORY_KV := memory_kv\<rparr>) t))))
          = filter (\<lambda>x. x \<noteq> k) (listing (world t)))"
proof (intro conjI impI)
  show "\<exists>ks. calls (snd (handleMCP (tools_call (JStr ''search_memory'') a i) env s)) =
           calls s @ KV_list # map KV_get ks"
    by (rule handleMCP_search_calls)
next
  show "\<exists>new. calls (snd (handleMCP (tools_call (JStr ''ask_memory'') a i) env s)) = calls s @ new
           \<and> filter is_put new = []"
    by (rule handleMCP_ask_calls)
next
  show "world (snd (handleMCP (tools_call (JStr ''search_memory'') a i)
        (menv\<lparr>MEMORY_KV := memory_kv\<rparr>) t)) = world t"
    by (rule handleMCP_search_world)
next
  assume "\<forall>req w. snd (http_fetch menv req w) = w"
  then show "world (snd (handleMCP (tools_call (JStr ''ask_memory'') a i)
          (menv\<lparr>MEMORY_KV := memory_kv\<rparr>) t)) = world t"
    by (rule handleMCP_ask_world)
next
  assume "truthy (arg a ''key'') \<and> truthy (arg a ''value'')"
  then show "calls (snd (handleMCP (tools_call (JStr ''store_memory'') a i) env s)) =
          calls s @ [KV_put (arg a ''key'') (arg a ''value'')]"
    by (simp add: handleMCP_store_calls)
next
  assume "k \<noteq> [] \<and> v \<noteq> []"
  then have w: "world (snd (handleMCP (store_memory k v i) (menv\<lparr>MEMORY_KV := memory_kv\<rparr>) t)) =
      memory_put k v (world t)"
    by (simp add: handleMCP_store_world)
  show "entries (world (snd (handleMCP (store_memory k v i) (menv\<lparr>MEMORY_KV := memory_kv\<rparr>) t))) k
          = Some v"
    by (simp add: w memory_put_def)
  show "\<forall>k'. k' \<noteq> k \<longrightarrow>
              entries (world (snd (handleMCP (store_memory k v i) (menv\<lparr>MEMORY_KV := memory_kv\<rparr>) t))) k'
                = entries (world t) k'"
    by (simp add: w memory_put_def)
  show "filter (\<lambda>x. x \<noteq> k)
            (listing (world (snd (handleMCP (store_memory k v i) (menv\<lparr>MEMORY_KV := memory_kv\<rparr>) t))))
          = filter (\<lambda>x. x \<noteq> k) (listing (world t))"
    by (simp add: w memory_put_def)
qed

theorem reads_do_not_write_and_store_writes_one_key_witness:
  "world (snd (handleMCP
        (tools_call (JStr ''ask_memory'')
           (Some (no_args(''question'' := JStr ''who'', ''key'' := JStr ''a'', ''value'' := JStr ''b'')))
           JNull)
        example_env (initial mixed_store))) = mixed_store
   \<and> calls (snd (handleMCP
        (tools_call (JStr ''store_memory'')
           (Some (no_args(''question'' := JStr ''who'', ''key'' := JStr ''a'', ''value'' := JStr ''b'')))
           JNull)
        example_env (initial mixed_store))) = [KV_put (JStr ''a'') (JStr ''b'')]
   \<and> entries (world (snd (handleMCP (store_memory ''a'' ''b'' JNull) example_env (initial mixed_store))))
        ''b'' = Some ''x''"
proof -
  let ?a = "Some (no_args(''question'' := JStr ''who'', ''key'' := JStr ''a'', ''value'' := JStr ''b''))"
  have e: "example_env\<lparr>MEMORY_KV := memory_kv\<rparr> = example_env"
    by (simp add: example_env_def)
  have f: "\<forall>req w. snd (http_fetch example_env req w) = w"
    by (simp add: example_env_def offline_def)
  have t: "truthy (arg ?a ''key'') \<and> truthy (arg ?a ''value'')"
    by (simp add: arg_def no_args_def)
  have n: "''a'' \<noteq> [] \<and> ''b'' \<noteq> []"
    by simp
  note T = reads_do_not_write_and_store_writes_one_key [where a = ?a and i = JNull
      and env = example_env and s = "initial mixed_store" and menv = example_env
      and t = "initial mixed_store" and k = "''a''" and v = "''b''", unfolded e]
  have "world (snd (handleMCP (tools_call (JStr ''ask_memory'') ?a JNull)
        example_env (initial mixed_store))) = world (initial mixed_store)"
    using T f by blast
  then have 1: "world (snd (handleMCP (tools_call (JStr ''ask_memory'') ?a JNull)
        example_env (initial mixed_store))) = mixed_store"
    by (simp add: initial_def)
  have "calls (snd (handleMCP (tools_call (JStr ''store_memory'') ?a JNull)
        example_env (initial mixed_store))) =
      calls (initial mixed_store) @ [KV_put (arg ?a ''key'') (arg ?a ''value'')]"
    using T t by blast
  then have 2: "calls (snd (handleMCP (tools_call (JStr ''store_memory'') ?a JNull)
        example_env (initial mixed_store))) = [KV_put (JStr ''a'') (JStr ''b'')]"
    by (simp add: initial_def arg_def no_args_def)
  have "\<forall>k'. k' \<noteq> ''a'' \<longrightarrow>
      entries (world (snd (handleMCP (store_memory ''a'' ''b'' JNull) example_env (initial mixed_store)))) k'
        = entries (world (initial mixed_store)) k'"
    using T n by blast
  then have 3: "entries (world (snd (handleMCP (store_memory ''a'' ''b'' JNull) example_env
        (initial mixed_store)))) ''b'' = Some ''x''"
    by (simp add: initial_def mixed_store_def)
  from 1 2 3 show ?thesis
    by blast
qed

end
